theory Spec2Isabelle
  imports Complex_Main "HOL-Library.AList" "HOL-Library.Log_Nat"
begin

section \<open>The account ledger of the ATM service\<close>

text \<open>
  A shallow embedding of \<^verbatim>\<open>app/services/account_service.py\<close> (class
  \<^verbatim>\<open>AccountService\<close>), of the Pydantic models it builds
  (\<^verbatim>\<open>app/schemas/account.py\<close>, \<^verbatim>\<open>app/schemas/transaction.py\<close>) and of the
  two transaction endpoints of \<^verbatim>\<open>app/routers/accounts.py\<close>.

  Modelling decisions.
  \<^item> The model is sequential: one operation runs at a time, so the re-entrant locks
    carry no state of their own. What is kept of the locking code is its effect on the
    lock table, a \<^verbatim>\<open>defaultdict(threading.RLock)\<close> that inserts an entry
    whenever a missing key is looked up.
  \<^item> Python dictionaries keep insertion order; both tables are association lists
    with \<open>AList.update\<close> for \<^verbatim>\<open>d[k] = v\<close> and \<open>AList.delete\<close> for
    \<^verbatim>\<open>del d[k]\<close>.
  \<^item> Balances and amounts are Python floats, that is IEEE 754 binary64 numbers. They
    are modelled as such: finite values with a sign, the two infinities and NaN, with
    addition rounded to nearest, ties to even.
  \<^item> \<^verbatim>\<open>uuid.uuid4()\<close> and \<^verbatim>\<open>datetime.now()\<close> read the environment; the value
    each call returns is an argument of the operation that makes the call.
  \<^item> An exception is a value \<open>Inl e\<close>; every operation returns its outcome together
    with the service state it leaves behind, since a failing lookup still changes the
    lock table.
\<close>

subsection \<open>Python floats\<close>

text \<open>
  Every finite binary64 number is a whole multiple of the smallest subnormal,
  \<^verbatim>\<open>2**-1074\<close>. \<open>Finite s k\<close> is the number of magnitude \<open>k\<close> times \<^verbatim>\<open>2**-1074\<close>
  with sign bit \<open>s\<close> (so there are two zeros); it is a binary64 number when \<open>k\<close> has at
  most 53 significant bits and is below \<^verbatim>\<open>2**2098\<close>, that is the value is below
  \<^verbatim>\<open>2**1024\<close>. \<open>Inf s\<close> is the infinity of sign \<open>s\<close>.
\<close>

datatype float = Finite bool nat | Inf bool | NaN

definition sval :: "bool \<Rightarrow> nat \<Rightarrow> int" where
  "sval s k = (if s then - int k else int k)"

text \<open>
  Rounding a magnitude to 53 significant bits, to nearest and ties to even: with \<open>L\<close>
  the bit length of \<open>n\<close>, the low \<open>L - 53\<close> bits are dropped and the rest is
  incremented when the dropped part is above the half, or is the half and the rest is odd.
  Magnitudes of at most 53 bits, among them all subnormal ones, are exact.
\<close>

definition round53 :: "nat \<Rightarrow> nat" where
  "round53 n =
     (let L = floorlog 2 n in
      if L \<le> 53 then n
      else
        (let q = 2 ^ (L - 53); d = n div q; r = n mod q
         in (if q < 2 * r \<or> (q = 2 * r \<and> odd d) then d + 1 else d) * q))"

text \<open>A rounded value of \<^verbatim>\<open>2**1024\<close> or more overflows to the infinity of its sign.\<close>

definition overflow :: "bool \<Rightarrow> nat \<Rightarrow> float" where
  "overflow s n = (if n < 2 ^ 2098 then Finite s n else Inf s)"

text \<open>
  Addition \<^verbatim>\<open>x + y\<close>: NaN propagates, infinities of opposite sign give NaN, an exact
  sum of zero is \<open>+0\<close> unless both operands are \<open>-0\<close>, and any other exact sum is
  rounded.
\<close>

fun fadd :: "float \<Rightarrow> float \<Rightarrow> float" where
  "fadd NaN y = NaN"
| "fadd x NaN = NaN"
| "fadd (Inf s) (Inf t) = (if s = t then Inf s else NaN)"
| "fadd (Inf s) (Finite t k) = Inf s"
| "fadd (Finite s j) (Inf t) = Inf t"
| "fadd (Finite s j) (Finite t k) =
     (let z = sval s j + sval t k
      in if z = 0 then Finite (s \<and> t) 0 else overflow (z < 0) (round53 (nat \<bar>z\<bar>)))"

text \<open>Unary minus \<^verbatim>\<open>-x\<close> and \<^verbatim>\<open>abs(x)\<close> act on the sign bit only.\<close>

fun fneg :: "float \<Rightarrow> float" where
  "fneg (Finite s k) = Finite (\<not> s) k"
| "fneg (Inf s) = Inf (\<not> s)"
| "fneg NaN = NaN"

fun fabs :: "float \<Rightarrow> float" where
  "fabs (Finite s k) = Finite False k"
| "fabs (Inf s) = Inf False"
| "fabs NaN = NaN"

text \<open>
  The comparisons \<^verbatim>\<open>x < y\<close> and \<^verbatim>\<open>x <= y\<close>; \<^verbatim>\<open>x >= y\<close> is \<open>fle y x\<close>. Every
  comparison with NaN is false, and the two zeros are equal.
\<close>

fun flt :: "float \<Rightarrow> float \<Rightarrow> bool" where
  "flt (Finite s j) (Finite t k) = (sval s j < sval t k)"
| "flt (Finite s j) (Inf t) = (\<not> t)"
| "flt (Inf s) (Finite t k) = s"
| "flt (Inf s) (Inf t) = (s \<and> \<not> t)"
| "flt x y = False"

fun fle :: "float \<Rightarrow> float \<Rightarrow> bool" where
  "fle (Finite s j) (Finite t k) = (sval s j \<le> sval t k)"
| "fle (Finite s j) (Inf t) = (\<not> t)"
| "fle (Inf s) (Finite t k) = s"
| "fle (Inf s) (Inf t) = (s \<or> \<not> t)"
| "fle x y = False"

text \<open>The float that the literal \<^verbatim>\<open>0\<close> becomes in a comparison with a float.\<close>

definition fzero :: float where
  "fzero = Finite False 0"

text \<open>Subtraction \<^verbatim>\<open>x - y\<close> is the addition of the negated operand.\<close>

definition fsub :: "float \<Rightarrow> float \<Rightarrow> float" where
  "fsub x y = fadd x (fneg y)"

fun is_finite :: "float \<Rightarrow> bool" where
  "is_finite (Finite s k) = True"
| "is_finite x = False"

text \<open>The real number a finite float stands for (0 is returned for the others).\<close>

fun valof :: "float \<Rightarrow> real" where
  "valof (Finite s k) = real_of_int (sval s k) / 2 ^ 1074"
| "valof x = 0"

text \<open>
  Float constants: \<open>dyadic m e\<close> is \<open>m\<close> times \<^verbatim>\<open>2**e\<close> for \<open>e \<ge> -1074\<close>, a binary64
  number when \<open>\<bar>m\<bar>\<close> is below \<^verbatim>\<open>2**53\<close> and \<open>e \<le> 970\<close>; \<open>double n\<close> is the whole
  number \<open>n\<close>, as the literal \<^verbatim>\<open>500.0\<close> is \<open>double 500\<close>.
\<close>

definition dyadic :: "int \<Rightarrow> int \<Rightarrow> float" where
  "dyadic m e = Finite (m < 0) (nat \<bar>m\<bar> * 2 ^ nat (e + 1074))"

definition double :: "int \<Rightarrow> float" where
  "double n = dyadic n 0"

subsection \<open>Settings, errors and schemas\<close>

type_synonym datetime = int

record settings =
  MAX_ACCOUNTS :: int
  MAX_TRANSACTION_AMOUNT :: float

text \<open>The defaults of \<^verbatim>\<open>Settings\<close> when the environment sets nothing.\<close>

definition default_settings :: settings where
  "default_settings = \<lparr>MAX_ACCOUNTS = 1000, MAX_TRANSACTION_AMOUNT = double 10000\<rparr>"

text \<open>
  The failures the code raises: \<open>NotFound\<close> is the HTTPException with status 404,
  \<open>CapacityExceeded\<close> the one with status 507, \<open>InsufficientFunds\<close> the one with
  status 400, and \<open>InvalidAmount\<close> is Pydantic's validation error, raised when a
  \<^verbatim>\<open>Field\<close> bound (\<^verbatim>\<open>ge\<close>, \<^verbatim>\<open>gt\<close>, \<^verbatim>\<open>le\<close>) is violated.
\<close>

datatype error = NotFound | CapacityExceeded | InsufficientFunds | InvalidAmount

record account =
  account_number :: string
  balance :: float
  created_at :: datetime
  last_updated :: datetime

text \<open>
  The constructor of the model \<^verbatim>\<open>Account\<close>: the field \<^verbatim>\<open>balance\<close> is declared
  \<^verbatim>\<open>Field(ge=0)\<close>, which Pydantic checks when the object is built (and not on a later
  assignment to the attribute).
\<close>

definition Account :: "string \<Rightarrow> float \<Rightarrow> datetime \<Rightarrow> datetime \<Rightarrow> error + account" where
  "Account n b c u =
     (if fle fzero b
      then Inr \<lparr>account_number = n, balance = b, created_at = c, last_updated = u\<rparr>
      else Inl InvalidAmount)"

text \<open>The request models \<^verbatim>\<open>AccountCreate\<close> and \<^verbatim>\<open>TransactionRequest\<close>.\<close>

definition AccountCreate :: "settings \<Rightarrow> float \<Rightarrow> error + float" where
  "AccountCreate cfg initial_balance =
     (if fle fzero initial_balance \<and> fle initial_balance (MAX_TRANSACTION_AMOUNT cfg)
      then Inr initial_balance else Inl InvalidAmount)"

definition TransactionRequest :: "settings \<Rightarrow> float \<Rightarrow> error + float" where
  "TransactionRequest cfg amount =
     (if flt fzero amount \<and> fle amount (MAX_TRANSACTION_AMOUNT cfg)
      then Inr amount else Inl InvalidAmount)"

record AccountCreateResponse =
  acr_account_number :: string
  acr_balance :: float
  acr_message :: string

record BalanceResponse =
  br_account_number :: string
  br_balance :: float

record TransactionResponse =
  tr_account_number :: string
  new_balance :: float
  transaction_amount :: float
  transaction_type :: string
  timestamp :: datetime

record account_info =
  ai_account_number :: string
  ai_balance :: float
  ai_created_at :: datetime
  ai_last_updated :: datetime

record accounts_listing =
  total_accounts :: nat
  max_accounts :: int
  accounts_info :: "account_info list"

subsection \<open>The service state\<close>

datatype rlock = RLock

record service =
  accounts :: "(string \<times> account) list"
  account_locks :: "(string \<times> rlock) list"

definition init_service :: service where
  "init_service = \<lparr>accounts = [], account_locks = []\<rparr>"

text \<open>
  \<^verbatim>\<open>self.account_locks[k]\<close> on the \<^verbatim>\<open>defaultdict\<close>: a missing key is inserted with a
  fresh lock, a present key leaves the table as it is.
\<close>

definition locks_getitem :: "string \<Rightarrow> (string \<times> rlock) list \<Rightarrow> (string \<times> rlock) list" where
  "locks_getitem k ls =
     (case map_of ls k of Some l \<Rightarrow> ls | None \<Rightarrow> ls @ [(k, RLock)])"

definition acquire :: "string \<Rightarrow> service \<Rightarrow> service" where
  "acquire k s = s\<lparr>account_locks := locks_getitem k (account_locks s)\<rparr>"

subsection \<open>Account management\<close>

definition create_account ::
  "settings \<Rightarrow> string \<Rightarrow> datetime \<Rightarrow> float \<Rightarrow> service \<Rightarrow> (error + AccountCreateResponse) \<times> service" where
  "create_account cfg uuid4 now initial_balance s =
     (if MAX_ACCOUNTS cfg \<le> int (length (accounts s)) then (Inl CapacityExceeded, s)
      else
        (case Account uuid4 initial_balance now now of
           Inl e \<Rightarrow> (Inl e, s)
         | Inr a \<Rightarrow>
             (Inr \<lparr>acr_account_number = uuid4, acr_balance = initial_balance,
                   acr_message = ''Account created successfully''\<rparr>,
              acquire uuid4 (s\<lparr>accounts := AList.update uuid4 a (accounts s)\<rparr>))))"

definition get_account_unsafe :: "string \<Rightarrow> service \<Rightarrow> error + account" where
  "get_account_unsafe k s =
     (case map_of (accounts s) k of None \<Rightarrow> Inl NotFound | Some a \<Rightarrow> Inr a)"

definition get_balance :: "string \<Rightarrow> service \<Rightarrow> (error + BalanceResponse) \<times> service" where
  "get_balance k s =
     (let s1 = acquire k s in
      case get_account_unsafe k s1 of
        Inl e \<Rightarrow> (Inl e, s1)
      | Inr a \<Rightarrow> (Inr \<lparr>br_account_number = account_number a, br_balance = balance a\<rparr>, s1))"

definition delete_account :: "string \<Rightarrow> service \<Rightarrow> (error + unit) \<times> service" where
  "delete_account k s =
     (if map_of (accounts s) k = None then (Inl NotFound, s)
      else
        (let s1 = acquire k s;
             s2 = s1\<lparr>accounts := AList.delete k (accounts s1)\<rparr>;
             s3 = (if map_of (account_locks s2) k \<noteq> None
                   then s2\<lparr>account_locks := AList.delete k (account_locks s2)\<rparr> else s2)
         in (Inr (), s3)))"

definition list_all_accounts :: "settings \<Rightarrow> service \<Rightarrow> accounts_listing" where
  "list_all_accounts cfg s =
     (let info = map (\<lambda>(k, a). \<lparr>ai_account_number = k, ai_balance = balance a,
                                 ai_created_at = created_at a,
                                 ai_last_updated = last_updated a\<rparr>) (accounts s)
      in \<lparr>total_accounts = length info, max_accounts = MAX_ACCOUNTS cfg, accounts_info = info\<rparr>)"

definition get_account_count :: "service \<Rightarrow> nat" where
  "get_account_count s = length (accounts s)"

subsection \<open>Transactions\<close>

definition atomic_transaction ::
  "string \<Rightarrow> float \<Rightarrow> string \<Rightarrow> datetime \<Rightarrow> service \<Rightarrow> (error + TransactionResponse) \<times> service" where
  "atomic_transaction k amount_change ttype now s =
     (let s1 = acquire k s in
      case get_account_unsafe k s1 of
        Inl e \<Rightarrow> (Inl e, s1)
      | Inr a \<Rightarrow>
          (let old_balance = balance a;
               new_bal = fadd old_balance amount_change
           in if flt amount_change fzero \<and> flt new_bal fzero then (Inl InsufficientFunds, s1)
              else
                (let a' = a\<lparr>balance := new_bal, last_updated := now\<rparr>;
                     s2 = s1\<lparr>accounts := AList.update k a' (accounts s1)\<rparr>
                 in (Inr \<lparr>tr_account_number = k, new_balance = new_bal,
                          transaction_amount = fabs amount_change,
                          transaction_type = ttype, timestamp = last_updated a'\<rparr>, s2))))"

text \<open>
  The two public wrappers re-raise every HTTPException unchanged; their second handler
  (any other exception becomes status 500) has nothing to catch in this model.
\<close>

definition withdraw_money ::
  "string \<Rightarrow> float \<Rightarrow> datetime \<Rightarrow> service \<Rightarrow> (error + TransactionResponse) \<times> service" where
  "withdraw_money k amount now s = atomic_transaction k (fneg amount) ''withdrawal'' now s"

definition deposit_money ::
  "string \<Rightarrow> float \<Rightarrow> datetime \<Rightarrow> service \<Rightarrow> (error + TransactionResponse) \<times> service" where
  "deposit_money k amount now s = atomic_transaction k amount ''deposit'' now s"

subsection \<open>The transaction endpoints\<close>

text \<open>
  The endpoints \<^verbatim>\<open>POST /accounts/{id}/withdraw\<close> and \<^verbatim>\<open>POST /accounts/{id}/deposit\<close>
  take the body as a \<^verbatim>\<open>TransactionRequest\<close>: the framework builds the model, and so
  checks its bounds, before the handler body calls the service.
\<close>

definition router_withdraw_money ::
  "settings \<Rightarrow> string \<Rightarrow> float \<Rightarrow> datetime \<Rightarrow> service \<Rightarrow> (error + TransactionResponse) \<times> service" where
  "router_withdraw_money cfg k amount now s =
     (case TransactionRequest cfg amount of
        Inl e \<Rightarrow> (Inl e, s)
      | Inr a \<Rightarrow> withdraw_money k a now s)"

definition router_deposit_money ::
  "settings \<Rightarrow> string \<Rightarrow> float \<Rightarrow> datetime \<Rightarrow> service \<Rightarrow> (error + TransactionResponse) \<times> service" where
  "router_deposit_money cfg k amount now s =
     (case TransactionRequest cfg amount of
        Inl e \<Rightarrow> (Inl e, s)
      | Inr a \<Rightarrow> deposit_money k a now s)"

subsection \<open>Runs of the service\<close>

text \<open>
  One call of a public method, with the values the environment hands to it: the
  identifier drawn by \<^verbatim>\<open>uuid4\<close> and the clock reading for a creation, the clock
  reading for a transaction.
\<close>

datatype event =
    Create string datetime float
  | GetBalance string
  | Delete string
  | ListAll
  | Withdraw string float datetime
  | Deposit string float datetime

datatype response =
    Created AccountCreateResponse
  | Balance BalanceResponse
  | Deleted
  | Listing accounts_listing
  | Transaction TransactionResponse

definition lift_result :: "('a \<Rightarrow> response) \<Rightarrow> (error + 'a) \<times> service \<Rightarrow> (error + response) \<times> service" where
  "lift_result f p = (case fst p of Inl e \<Rightarrow> Inl e | Inr r \<Rightarrow> Inr (f r), snd p)"

fun exec :: "settings \<Rightarrow> event \<Rightarrow> service \<Rightarrow> (error + response) \<times> service" where
  "exec cfg (Create u now b) s = lift_result Created (create_account cfg u now b s)"
| "exec cfg (GetBalance k) s = lift_result Balance (get_balance k s)"
| "exec cfg (Delete k) s = lift_result (\<lambda>_. Deleted) (delete_account k s)"
| "exec cfg ListAll s = (Inr (Listing (list_all_accounts cfg s)), s)"
| "exec cfg (Withdraw k a now) s = lift_result Transaction (withdraw_money k a now s)"
| "exec cfg (Deposit k a now) s = lift_result Transaction (deposit_money k a now s)"

definition step :: "settings \<Rightarrow> event \<Rightarrow> service \<Rightarrow> service" where
  "step cfg e s = snd (exec cfg e s)"

fun run :: "settings \<Rightarrow> event list \<Rightarrow> service \<Rightarrow> service" where
  "run cfg [] s = s"
| "run cfg (e # es) s = run cfg es (step cfg e s)"

text \<open>Whether every call of a run returns normally.\<close>

fun all_succeed :: "settings \<Rightarrow> event list \<Rightarrow> service \<Rightarrow> bool" where
  "all_succeed cfg [] s = True"
| "all_succeed cfg (e # es) s =
     (case fst (exec cfg e s) of Inl err \<Rightarrow> False | Inr r \<Rightarrow> all_succeed cfg es (step cfg e s))"

subsection \<open>Predicates on states and runs\<close>

text \<open>Every stored balance satisfies \<^verbatim>\<open>balance >= 0\<close>.\<close>

definition balances_nonneg :: "service \<Rightarrow> bool" where
  "balances_nonneg s = list_all (\<lambda>p. fle fzero (balance (snd p))) (accounts s)"

text \<open>A call whose amount, if it has one, is a finite number.\<close>

fun finite_amount :: "event \<Rightarrow> bool" where
  "finite_amount (Withdraw k a now) = is_finite a"
| "finite_amount (Deposit k a now) = is_finite a"
| "finite_amount e = True"

text \<open>
  A reference state: one account created with 500 at time 1, then a deposit of 250 at
  time 2 and a withdrawal of 100 at time 3, under the default settings.
\<close>

definition funded :: service where
  "funded = run default_settings
     [Create ''acct-1'' 1 (double 500), Deposit ''acct-1'' (double 250) 2,
      Withdraw ''acct-1'' (double 100) 3]
     init_service"

text \<open>The keys of the two tables.\<close>

definition account_keys :: "service \<Rightarrow> string set" where
  "account_keys s = set (map fst (accounts s))"

definition lock_keys :: "service \<Rightarrow> string set" where
  "lock_keys s = set (map fst (account_locks s))"

text \<open>Whether a call is a creation for which \<^verbatim>\<open>uuid4\<close> returns the identifier \<open>k\<close>.\<close>

fun draws :: "string \<Rightarrow> event \<Rightarrow> bool" where
  "draws k (Create u now b) = (u = k)"
| "draws k e = False"

text \<open>A batch of creations, each with the identifier, clock reading and balance it gets.\<close>

definition creations :: "(string \<times> datetime \<times> float) list \<Rightarrow> event list" where
  "creations xs = map (\<lambda>(u, now, b). Create u now b) xs"

text \<open>
  Deposits and withdrawals on the account \<open>k\<close>; the change a call makes to the balance
  (the amount of a deposit, the negated amount of a withdrawal); and the balance that
  results from \<open>b\<close> when the changes of a run are added one after the other, each sum
  rounded as float addition rounds it.
\<close>

fun txn_on :: "string \<Rightarrow> event \<Rightarrow> bool" where
  "txn_on k (Deposit k' a now) = (k' = k)"
| "txn_on k (Withdraw k' a now) = (k' = k)"
| "txn_on k e = False"

fun balance_change :: "event \<Rightarrow> float" where
  "balance_change (Deposit k a now) = a"
| "balance_change (Withdraw k a now) = fneg a"
| "balance_change e = fzero"

fun apply_amounts :: "float \<Rightarrow> event list \<Rightarrow> float" where
  "apply_amounts b [] = b"
| "apply_amounts b (e # es) = apply_amounts (fadd b (balance_change e)) es"

text \<open>
  The exact sums of the deposited and of the withdrawn amounts of a run, as real
  numbers, and the runs on which no addition rounds: every operand and every sum is
  finite, and every sum is the exact one.
\<close>

fun deposits_sum :: "event list \<Rightarrow> real" where
  "deposits_sum [] = 0"
| "deposits_sum (Deposit k a now # es) = valof a + deposits_sum es"
| "deposits_sum (e # es) = deposits_sum es"

fun withdrawals_sum :: "event list \<Rightarrow> real" where
  "withdrawals_sum [] = 0"
| "withdrawals_sum (Withdraw k a now # es) = valof a + withdrawals_sum es"
| "withdrawals_sum (e # es) = withdrawals_sum es"

fun no_rounding :: "float \<Rightarrow> event list \<Rightarrow> bool" where
  "no_rounding b [] = True"
| "no_rounding b (e # es) =
     (is_finite b \<and> is_finite (balance_change e) \<and> is_finite (fadd b (balance_change e))
      \<and> valof (fadd b (balance_change e)) = valof b + valof (balance_change e)
      \<and> no_rounding (fadd b (balance_change e)) es)"

text \<open>Four deposits of \<^verbatim>\<open>2**-41\<close> into the account \<^verbatim>\<open>acct-1\<close>.\<close>

definition tiny_deposits :: "event list" where
  "tiny_deposits =
     [Deposit ''acct-1'' (dyadic 1 (- 41)) 2, Deposit ''acct-1'' (dyadic 1 (- 41)) 3,
      Deposit ''acct-1'' (dyadic 1 (- 41)) 4, Deposit ''acct-1'' (dyadic 1 (- 41)) 5]"



section \<open>Facts about floats\<close>

lemma floorlog2_eq:
  assumes "2 ^ w \<le> n" and "n < 2 ^ Suc w"
  shows "floorlog 2 n = Suc w"
proof -
  have "floorlog 2 n \<le> Suc w"
    using assms(2) by (simp add: floorlog_le_iff)
  moreover have "Suc w \<le> floorlog 2 n"
    using assms(1) by (intro floorlog_ge_SucI) simp_all
  ultimately show ?thesis by simp
qed

lemma round53_small: "n < 2 ^ 53 \<Longrightarrow> round53 n = n"
  by (simp add: round53_def floorlog_le_iff)

text \<open>Rounding commutes with scaling by a power of two.\<close>

lemma round53_scale:
  assumes "0 < m"
  shows "round53 (m * 2 ^ j) = round53 m * 2 ^ j"
proof -
  let ?L = "floorlog 2 m"
  have L: "floorlog 2 (m * 2 ^ j) = ?L + j"
    using assms by simp
  show ?thesis
  proof (cases "?L \<le> 53")
    case True
    then have small: "round53 m = m" by (simp add: round53_def)
    show ?thesis
    proof (cases "?L + j \<le> 53")
      case True
      with L small show ?thesis by (simp add: round53_def)
    next
      case False
      define sh where "sh = ?L + j - 53"
      with True False have sh: "sh \<le> j" "0 < sh" by simp_all
      have split: "m * 2 ^ j = (m * 2 ^ (j - sh)) * 2 ^ sh"
        using sh(1) by (simp add: mult.assoc flip: power_add)
      have d: "(m * 2 ^ j) div 2 ^ sh = m * 2 ^ (j - sh)"
        by (subst split) simp
      have r: "(m * 2 ^ j) mod 2 ^ sh = 0"
        by (subst split) simp
      have "round53 (m * 2 ^ j) = (m * 2 ^ (j - sh)) * 2 ^ sh"
        using False L d r by (simp add: round53_def Let_def sh_def)
      also have "\<dots> = m * 2 ^ j" by (rule split [symmetric])
      finally show ?thesis by (simp only: small)
    qed
  next
    case False
    define sh where "sh = ?L - 53"
    define q :: nat where "q = 2 ^ sh"
    from False have sh': "?L + j - 53 = sh + j" by (simp add: sh_def)
    have q': "(2::nat) ^ (sh + j) = q * 2 ^ j" by (simp add: q_def power_add)
    have d: "(m * 2 ^ j) div (q * 2 ^ j) = m div q" by simp
    have r: "(m * 2 ^ j) mod (q * 2 ^ j) = (m mod q) * 2 ^ j" by simp
    have c1: "q * 2 ^ j < 2 * ((m mod q) * 2 ^ j) \<longleftrightarrow> q < 2 * (m mod q)"
      by (metis mult.assoc mult_less_cancel2 zero_less_numeral zero_less_power)
    have c2: "q * 2 ^ j = 2 * ((m mod q) * 2 ^ j) \<longleftrightarrow> q = 2 * (m mod q)"
      by (metis mult.assoc mult_cancel2 power_not_zero zero_neq_numeral)
    have "round53 (m * 2 ^ j) =
        (if q < 2 * (m mod q) \<or> (q = 2 * (m mod q) \<and> odd (m div q)) then m div q + 1 else m div q)
          * (q * 2 ^ j)"
      using False L by (simp add: round53_def Let_def sh' q' d r c1 c2 del: mult_less_cancel2 mult_cancel2)
    moreover have "round53 m =
        (if q < 2 * (m mod q) \<or> (q = 2 * (m mod q) \<and> odd (m div q)) then m div q + 1 else m div q) * q"
      using False by (simp add: round53_def Let_def sh_def q_def)
    ultimately show ?thesis by (simp add: mult.assoc)
  qed
qed

lemma sval_dyadic: "sval (m < 0) (nat \<bar>m\<bar> * 2 ^ j) = m * 2 ^ j"
  by (simp add: sval_def nat_mult_distrib)

lemma fadd_dyadic:
  "fadd (dyadic a e) (dyadic b e) =
     (if a + b = 0 then Finite (a < 0 \<and> b < 0) 0
      else overflow (a + b < 0) (round53 (nat \<bar>a + b\<bar>) * 2 ^ nat (e + 1074)))"
proof -
  define j where "j = nat (e + 1074)"
  have z: "sval (a < 0) (nat \<bar>a\<bar> * 2 ^ j) + sval (b < 0) (nat \<bar>b\<bar> * 2 ^ j) = (a + b) * 2 ^ j"
    by (simp add: sval_dyadic distrib_right)
  show ?thesis
  proof (cases "a + b = 0")
    case True
    then show ?thesis by (simp add: dyadic_def z flip: j_def)
  next
    case False
    then have pos: "0 < nat \<bar>a + b\<bar>" by simp
    have abs: "nat \<bar>(a + b) * 2 ^ j\<bar> = nat \<bar>a + b\<bar> * 2 ^ j"
      by (simp add: abs_mult nat_mult_distrib)
    have neg: "(a + b) * 2 ^ j < 0 \<longleftrightarrow> a + b < 0"
      by (simp add: mult_less_0_iff)
    from False show ?thesis
      by (simp add: dyadic_def z abs neg round53_scale [OF pos] flip: j_def)
  qed
qed

lemma overflow_small:
  assumes "n < 2 ^ p" and "p + j \<le> 2098"
  shows "overflow s (n * 2 ^ j) = Finite s (n * 2 ^ j)"
proof -
  have "n * 2 ^ j < 2 ^ p * 2 ^ j" using assms(1) by simp
  also have "\<dots> = (2::nat) ^ (p + j)" by (simp only: power_add)
  also have "\<dots> \<le> 2 ^ 2098" using assms(2) by (intro power_increasing) simp_all
  finally show ?thesis by (simp only: overflow_def if_True)
qed

lemma fadd_dyadic_exact:
  assumes "\<bar>a + b\<bar> < 2 ^ 53" and "- 1074 \<le> e" and "e \<le> 970"
  shows "fadd (dyadic a e) (dyadic b e) =
     (if a + b = 0 then Finite (a < 0 \<and> b < 0) 0 else dyadic (a + b) e)"
proof -
  have n: "nat \<bar>a + b\<bar> < 2 ^ 53" using assms(1) by (simp add: nat_less_iff)
  have j: "53 + nat (e + 1074) \<le> 2098" using assms(2,3) by simp
  have "overflow (a + b < 0) (round53 (nat \<bar>a + b\<bar>) * 2 ^ nat (e + 1074)) = dyadic (a + b) e"
    using n by (simp only: round53_small overflow_small [OF n j] dyadic_def)
  then show ?thesis by (simp only: fadd_dyadic)
qed

lemma dyadic_zero: "dyadic 0 e = fzero"
  by (simp add: dyadic_def fzero_def)

lemma dyadic_eq_iff: "dyadic a e = dyadic b e \<longleftrightarrow> a = b"
  by (auto simp: dyadic_def)

lemma flt_dyadic: "flt (dyadic a e) (dyadic b e) \<longleftrightarrow> a < b"
  by (simp add: dyadic_def sval_dyadic)

lemma fle_dyadic: "fle (dyadic a e) (dyadic b e) \<longleftrightarrow> a \<le> b"
  by (simp add: dyadic_def sval_dyadic)

lemma fneg_dyadic: "a \<noteq> 0 \<Longrightarrow> fneg (dyadic a e) = dyadic (- a) e"
  by (auto simp: dyadic_def)

lemma fabs_dyadic: "fabs (dyadic a e) = dyadic \<bar>a\<bar> e"
  by (simp add: dyadic_def)

lemma is_finite_dyadic: "is_finite (dyadic a e)"
  by (simp add: dyadic_def)

lemma dyadic_shift:
  assumes "- 1074 \<le> e"
  shows "dyadic (m * 2 ^ i) e = dyadic m (e + int i)"
proof -
  have "nat (e + int i + 1074) = i + nat (e + 1074)" using assms by simp
  then show ?thesis
    by (simp add: dyadic_def abs_mult nat_mult_distrib power_add mult_less_0_iff mult.assoc)
qed

lemma scaled_quotient:
  assumes "i \<le> (n::nat)"
  shows "real_of_int (m * 2 ^ (n - i)) / 2 ^ n = real_of_int m / 2 ^ i"
proof -
  have "(2::real) ^ n = 2 ^ (n - i) * 2 ^ i"
    using assms by (simp flip: power_add)
  then show ?thesis by simp
qed

lemma valof_dyadic:
  assumes "i \<le> 1074"
  shows "valof (dyadic m (- int i)) = real_of_int m / 2 ^ i"
proof -
  have j: "nat (- int i + 1074) = 1074 - i" using assms by simp
  show ?thesis
    by (simp only: dyadic_def valof.simps sval_dyadic j scaled_quotient [OF assms])
qed

text \<open>Whole numbers below \<^verbatim>\<open>2**53\<close> are added, negated and compared exactly.\<close>

lemma fzero_double: "fzero = double 0"
  by (simp add: double_def dyadic_zero)

lemma fadd_double:
  assumes "\<bar>a + b\<bar> < 2 ^ 53"
  shows "fadd (double a) (double b) = double (a + b)"
proof -
  have "fadd (dyadic a 0) (dyadic b 0) =
     (if a + b = 0 then Finite (a < 0 \<and> b < 0) 0 else dyadic (a + b) 0)"
    using assms by (intro fadd_dyadic_exact) simp_all
  moreover have "a + b = 0 \<Longrightarrow> Finite (a < 0 \<and> b < 0) 0 = dyadic (a + b) 0"
    by (auto simp: dyadic_def)
  ultimately show ?thesis by (simp add: double_def)
qed

lemma double_eq_iff: "double a = double b \<longleftrightarrow> a = b"
  by (simp add: double_def dyadic_eq_iff)

lemma flt_double: "flt (double a) (double b) \<longleftrightarrow> a < b"
  by (simp add: double_def flt_dyadic)

lemma fle_double: "fle (double a) (double b) \<longleftrightarrow> a \<le> b"
  by (simp add: double_def fle_dyadic)

lemma fneg_double: "a \<noteq> 0 \<Longrightarrow> fneg (double a) = double (- a)"
  by (simp add: double_def fneg_dyadic)

lemma fabs_double: "fabs (double a) = double \<bar>a\<bar>"
  by (simp add: double_def fabs_dyadic)

lemma is_finite_double: "is_finite (double a)"
  by (simp add: double_def is_finite_dyadic)

lemma double_not_special: "double a \<noteq> NaN" "double a \<noteq> Inf s"
  by (simp_all add: double_def dyadic_def)

lemma valof_double: "valof (double n) = real_of_int n"
  using valof_dyadic [of 0 n] by (simp add: double_def)

lemmas double_simps =
  fzero_double fadd_double double_eq_iff flt_double fle_double fneg_double fabs_double
  is_finite_double double_not_special valof_double fsub_def

text \<open>NaN propagates through addition, and every comparison with it is false.\<close>

lemma fadd_NaN [simp]: "fadd x NaN = NaN"
  by (cases x) simp_all

lemma flt_NaN [simp]: "flt NaN x = False"
  by (cases x) simp_all

lemma fle_NaN [simp]: "fle NaN x = False"
  by (cases x) simp_all

text \<open>Order facts that hold for every float, NaN and the infinities included.\<close>

lemma flt_fneg: "flt fzero x \<Longrightarrow> flt (fneg x) fzero"
  by (cases x) (auto simp: fzero_def sval_def split: if_splits)

lemma fabs_fneg_pos: "flt fzero x \<Longrightarrow> fabs (fneg x) = x"
  by (cases x) (auto simp: fzero_def sval_def split: if_splits)

lemma flt_not_fle: "flt x y \<Longrightarrow> \<not> fle y x"
  by (cases x; cases y) auto

lemma fle_not_flt: "fle x y \<Longrightarrow> \<not> flt y x"
  by (cases x; cases y) auto

lemma is_finite_fneg [simp]: "is_finite (fneg x) = is_finite x"
  by (cases x) simp_all

lemma valof_fneg [simp]: "valof (fneg x) = - valof x"
  by (cases x) (simp_all add: sval_def)

lemma bounded_is_finite:
  "flt fzero x \<Longrightarrow> fle x m \<Longrightarrow> is_finite m \<Longrightarrow> is_finite x"
  by (cases x; cases m) (auto simp: fzero_def)

text \<open>
  The step that keeps balances non-negative: a finite change added to a non-negative
  balance gives a non-negative balance, unless the change and the sum are both negative
  (the case the service refuses).
\<close>

lemma fadd_nonneg:
  assumes "fle fzero b" and "is_finite c"
      and "\<not> (flt c fzero \<and> flt (fadd b c) fzero)"
  shows "fle fzero (fadd b c)"
proof (cases c)
  case c: (Finite t k)
  show ?thesis
  proof (cases b)
    case (Finite s j)
    with c assms show ?thesis
      by (auto simp: fzero_def sval_def overflow_def Let_def split: if_splits)
  next
    case (Inf s)
    with c assms show ?thesis by (simp add: fzero_def)
  next
    case NaN
    with assms show ?thesis by (simp add: fzero_def)
  qed
qed (use assms in simp_all)

section \<open>Basic facts\<close>

lemmas service_defs =
  create_account_def get_balance_def delete_account_def list_all_accounts_def
  atomic_transaction_def withdraw_money_def deposit_money_def get_account_unsafe_def
  acquire_def locks_getitem_def Account_def lift_result_def step_def init_service_def
  default_settings_def Let_def

lemma accounts_acquire [simp]: "accounts (acquire k s) = accounts s"
  by (simp add: acquire_def)

lemma account_locks_acquire [simp]:
  "account_locks (acquire k s) = locks_getitem k (account_locks s)"
  by (simp add: acquire_def)

lemma funded_eq:
  "funded = \<lparr>accounts = [(''acct-1'',
      \<lparr>account_number = ''acct-1'', balance = double 650, created_at = 1, last_updated = 3\<rparr>)],
     account_locks = [(''acct-1'', RLock)]\<rparr>"
  by (simp add: funded_def service_defs double_simps)

lemma atomic_transaction_found:
  assumes "map_of (accounts s) k = Some a"
  shows "atomic_transaction k c ty now s =
     (if flt c fzero \<and> flt (fadd (balance a) c) fzero then (Inl InsufficientFunds, acquire k s)
      else (Inr \<lparr>tr_account_number = k, new_balance = fadd (balance a) c,
                 transaction_amount = fabs c, transaction_type = ty, timestamp = now\<rparr>,
            (acquire k s)\<lparr>accounts :=
               AList.update k (a\<lparr>balance := fadd (balance a) c, last_updated := now\<rparr>)
                 (accounts s)\<rparr>))"
  using assms by (simp add: atomic_transaction_def get_account_unsafe_def Let_def)

lemma atomic_transaction_absent:
  assumes "map_of (accounts s) k = None"
  shows "atomic_transaction k c ty now s = (Inl NotFound, acquire k s)"
  using assms by (simp add: atomic_transaction_def get_account_unsafe_def Let_def)

lemma list_all_update:
  "list_all P al \<Longrightarrow> P (k, v) \<Longrightarrow> list_all P (AList.update k v al)"
  by (induction al) auto

lemma list_all_delete: "list_all P al \<Longrightarrow> list_all P (AList.delete k al)"
  by (induction al) auto

lemma map_of_list_all: "list_all P al \<Longrightarrow> map_of al k = Some v \<Longrightarrow> P (k, v)"
  by (induction al) (auto split: if_splits)

lemma create_account_nonneg:
  "balances_nonneg s \<Longrightarrow> balances_nonneg (snd (create_account cfg u now b s))"
  by (auto simp: create_account_def balances_nonneg_def Account_def list_all_update)

lemma get_balance_accounts [simp]: "accounts (snd (get_balance k s)) = accounts s"
  by (simp add: get_balance_def Let_def split: sum.splits)

lemma delete_account_nonneg:
  "balances_nonneg s \<Longrightarrow> balances_nonneg (snd (delete_account k s))"
  by (auto simp: delete_account_def balances_nonneg_def Let_def list_all_delete)

lemma atomic_transaction_nonneg:
  assumes "balances_nonneg s" and "is_finite c"
  shows "balances_nonneg (snd (atomic_transaction k c ty now s))"
proof (cases "map_of (accounts s) k")
  case None
  then show ?thesis using assms
    by (simp add: atomic_transaction_absent balances_nonneg_def)
next
  case (Some a)
  with assms have a: "fle fzero (balance a)"
    using map_of_list_all [of "\<lambda>p. fle fzero (balance (snd p))" "accounts s" k a]
    by (simp add: balances_nonneg_def)
  show ?thesis
  proof (cases "flt c fzero \<and> flt (fadd (balance a) c) fzero")
    case True
    with Some assms show ?thesis
      by (simp add: atomic_transaction_found balances_nonneg_def)
  next
    case False
    with a assms(2) have "fle fzero (fadd (balance a) c)" by (intro fadd_nonneg)
    with False Some assms(1) show ?thesis
      by (simp add: atomic_transaction_found balances_nonneg_def list_all_update)
  qed
qed

lemma get_balance_nonneg:
  "balances_nonneg s \<Longrightarrow> balances_nonneg (snd (get_balance k s))"
  by (simp add: balances_nonneg_def)

lemma step_nonneg:
  "balances_nonneg s \<Longrightarrow> finite_amount e \<Longrightarrow> balances_nonneg (step cfg e s)"
  by (cases e)
    (simp_all add: step_def lift_result_def create_account_nonneg delete_account_nonneg
      atomic_transaction_nonneg withdraw_money_def deposit_money_def get_balance_nonneg)

lemma run_nonneg:
  "balances_nonneg s \<Longrightarrow> list_all finite_amount es \<Longrightarrow> balances_nonneg (run cfg es s)"
  by (induction es arbitrary: s) (simp_all add: step_nonneg)

lemma TransactionRequest_finite:
  assumes "is_finite (MAX_TRANSACTION_AMOUNT cfg)" and "TransactionRequest cfg amt = Inr a"
  shows "is_finite a"
  using assms bounded_is_finite [of amt "MAX_TRANSACTION_AMOUNT cfg"]
  by (auto simp: TransactionRequest_def split: if_splits)


section \<open>Balance non-negativity\<close>

text \<open>
  Claim C1, as stated, fails: the service checks no amount, and a NaN passes the guard
  of the transaction because every comparison with NaN is false. A deposit of NaN into
  an account created with 500 returns normally and stores NaN as the balance, for which
  \<^verbatim>\<open>balance >= 0\<close> is false.
\<close>

theorem nan_deposit_breaks_nonnegativity:
  "map_of (accounts (run default_settings
        [Create ''acct-1'' 1 (double 500), Deposit ''acct-1'' NaN 2] init_service)) ''acct-1''
     = Some \<lparr>account_number = ''acct-1'', balance = NaN, created_at = 1, last_updated = 2\<rparr>
   \<and> fle fzero NaN = False
   \<and> balances_nonneg (run default_settings
        [Create ''acct-1'' 1 (double 500), Deposit ''acct-1'' NaN 2] init_service) = False"
  by (simp add: balances_nonneg_def service_defs double_simps)

text \<open>
  Claim C1, amended. In every state the service reaches from the empty ledger by calls
  whose deposit and withdrawal amounts are finite numbers (neither NaN nor an infinity),
  whether the calls returned or raised, every stored balance satisfies
  \<^verbatim>\<open>balance >= 0\<close>. The amounts that the request model of the endpoints lets through
  are finite whenever the configured maximum is.
\<close>

theorem balance_never_negative:
  "(list_all finite_amount es \<longrightarrow> balances_nonneg (run cfg es init_service))
   \<and> (is_finite (MAX_TRANSACTION_AMOUNT cfg) \<and> TransactionRequest cfg amt = Inr a
        \<longrightarrow> is_finite a)"
proof (intro conjI impI)
  assume "list_all finite_amount es"
  with run_nonneg [of init_service es cfg] show "balances_nonneg (run cfg es init_service)"
    by (simp add: balances_nonneg_def init_service_def)
next
  assume "is_finite (MAX_TRANSACTION_AMOUNT cfg) \<and> TransactionRequest cfg amt = Inr a"
  then show "is_finite a" using TransactionRequest_finite by blast
qed

theorem balance_never_negative_witness:
  "map finite_amount
      [Create ''acct-1'' 1 (double 500), Deposit ''acct-1'' (double 250) 2,
       Withdraw ''acct-1'' (double 100) 3, Withdraw ''acct-1'' (double 1000) 4,
       Deposit ''ghost'' (double 5) 5] = [True, True, True, True, True]
   \<and> balances_nonneg (run default_settings
      [Create ''acct-1'' 1 (double 500), Deposit ''acct-1'' (double 250) 2,
       Withdraw ''acct-1'' (double 100) 3, Withdraw ''acct-1'' (double 1000) 4,
       Deposit ''ghost'' (double 5) 5] init_service)
   \<and> map (\<lambda>p. (fst p, balance (snd p))) (accounts (run default_settings
      [Create ''acct-1'' 1 (double 500), Deposit ''acct-1'' (double 250) 2,
       Withdraw ''acct-1'' (double 100) 3, Withdraw ''acct-1'' (double 1000) 4,
       Deposit ''ghost'' (double 5) 5] init_service)) = [(''acct-1'', double 650)]
   \<and> is_finite (MAX_TRANSACTION_AMOUNT default_settings)
   \<and> TransactionRequest default_settings (double 250) = Inr (double 250)
   \<and> is_finite (double 250)"
  using balance_never_negative [of
      "[Create ''acct-1'' 1 (double 500), Deposit ''acct-1'' (double 250) 2,
        Withdraw ''acct-1'' (double 100) 3, Withdraw ''acct-1'' (double 1000) 4,
        Deposit ''ghost'' (double 5) 5]" default_settings "double 250" "double 250"]
  by (simp add: service_defs double_simps TransactionRequest_def)


section \<open>Withdrawal\<close>

text \<open>
  Claim C2. For an existing account with balance \<open>b\<close> and an amount \<open>amt > 0\<close> (the
  service does not look at the configured limit, so the statement covers every amount
  up to it): \<open>withdraw_money\<close> raises InsufficientFunds exactly when \<open>b - amt < 0\<close>,
  and then the account table is the one before the call; otherwise the response carries
  the new balance \<open>b - amt\<close>, and the stored account has that balance, its
  \<open>last_updated\<close> set to the clock reading of the call and its other fields as before.
  The difference \<open>b - amt\<close> is the float one, \<open>fsub b amt\<close>.
\<close>

theorem withdraw_insufficient_funds:
  assumes "map_of (accounts s) k = Some a" and "flt fzero amt"
  shows "(fst (withdraw_money k amt now s) = Inl InsufficientFunds
            \<longleftrightarrow> flt (fsub (balance a) amt) fzero)
    \<and> (flt (fsub (balance a) amt) fzero \<longrightarrow>
          accounts (snd (withdraw_money k amt now s)) = accounts s)
    \<and> (\<not> flt (fsub (balance a) amt) fzero \<longrightarrow>
          fst (withdraw_money k amt now s) =
            Inr \<lparr>tr_account_number = k, new_balance = fsub (balance a) amt,
                 transaction_amount = amt, transaction_type = ''withdrawal'',
                 timestamp = now\<rparr>
        \<and> map_of (accounts (snd (withdraw_money k amt now s))) k =
            Some (a\<lparr>balance := fsub (balance a) amt, last_updated := now\<rparr>))"
  using assms
  by (simp add: withdraw_money_def atomic_transaction_found AList.update_conv' fsub_def
      flt_fneg fabs_fneg_pos)

theorem withdraw_insufficient_funds_witness:
  "flt fzero (double 1000) \<and> flt fzero (double 100)
   \<and> fst (withdraw_money ''acct-1'' (double 1000) 4 funded) = Inl InsufficientFunds
   \<and> accounts (snd (withdraw_money ''acct-1'' (double 1000) 4 funded)) = accounts funded
   \<and> fst (withdraw_money ''acct-1'' (double 100) 4 funded) =
        Inr \<lparr>tr_account_number = ''acct-1'', new_balance = double 550,
             transaction_amount = double 100, transaction_type = ''withdrawal'',
             timestamp = 4\<rparr>
   \<and> map_of (accounts (snd (withdraw_money ''acct-1'' (double 100) 4 funded))) ''acct-1'' =
        Some \<lparr>account_number = ''acct-1'', balance = double 550, created_at = 1,
              last_updated = 4\<rparr>"
  using withdraw_insufficient_funds [of funded "''acct-1''"
      "\<lparr>account_number = ''acct-1'', balance = double 650, created_at = 1, last_updated = 3\<rparr>"
      "double 1000" 4]
    withdraw_insufficient_funds [of funded "''acct-1''"
      "\<lparr>account_number = ''acct-1'', balance = double 650, created_at = 1, last_updated = 3\<rparr>"
      "double 100" 4]
  by (simp add: funded_eq double_simps)


section \<open>Amount validation\<close>

text \<open>
  Claim C3, as stated, fails: the service checks no amount. A deposit of 20000, above
  the default limit of 10000, into an existing account returns normally and stores the
  new balance.
\<close>

theorem ledger_accepts_over_limit_amount:
  "flt (MAX_TRANSACTION_AMOUNT default_settings) (double 20000)
   \<and> fst (deposit_money ''acct-1'' (double 20000) 4 funded) \<noteq> Inl InvalidAmount
   \<and> fst (deposit_money ''acct-1'' (double 20000) 4 funded) =
       Inr \<lparr>tr_account_number = ''acct-1'', new_balance = double 20650,
            transaction_amount = double 20000, transaction_type = ''deposit'', timestamp = 4\<rparr>
   \<and> map_of (accounts (snd (deposit_money ''acct-1'' (double 20000) 4 funded))) ''acct-1'' =
       Some \<lparr>account_number = ''acct-1'', balance = double 20650, created_at = 1,
             last_updated = 4\<rparr>"
  by (simp add: funded_eq service_defs double_simps)

text \<open>
  Claim C3, amended. The bounds are checked by the request model of the deposit and
  withdraw endpoints: for an amount \<open>amt \<le> 0\<close> or above the configured limit, the
  endpoint fails with InvalidAmount and the service is never called, so its state is
  the one before the request.
\<close>

theorem request_layer_rejects_invalid_amount:
  assumes "fle amt fzero \<or> flt (MAX_TRANSACTION_AMOUNT cfg) amt"
  shows "router_deposit_money cfg k amt now s = (Inl InvalidAmount, s)
       \<and> router_withdraw_money cfg k amt now s = (Inl InvalidAmount, s)"
  using assms fle_not_flt [of amt fzero] flt_not_fle [of "MAX_TRANSACTION_AMOUNT cfg" amt]
  by (auto simp: router_deposit_money_def router_withdraw_money_def TransactionRequest_def)

theorem request_layer_rejects_invalid_amount_witness:
  "flt (MAX_TRANSACTION_AMOUNT default_settings) (double 20000) \<and> fle (double 0) fzero
   \<and> router_deposit_money default_settings ''acct-1'' (double 20000) 4 funded
       = (Inl InvalidAmount, funded)
   \<and> router_withdraw_money default_settings ''acct-1'' (double 0) 4 funded
       = (Inl InvalidAmount, funded)"
  using request_layer_rejects_invalid_amount
      [of "double 20000" default_settings "''acct-1''" 4 funded]
    request_layer_rejects_invalid_amount [of "double 0" default_settings "''acct-1''" 4 funded]
  by (simp add: default_settings_def double_simps)


section \<open>Creation with a negative balance\<close>

text \<open>
  Claim C4, as stated, fails when the ledger is full: the capacity check comes first, so
  a creation with balance -5 on a ledger that holds its maximum of one account fails with
  CapacityExceeded, not InvalidAmount.
\<close>

theorem create_negative_at_capacity:
  "flt (double (- 5)) fzero
   \<and> fst (create_account \<lparr>MAX_ACCOUNTS = 1, MAX_TRANSACTION_AMOUNT = double 10000\<rparr>
          ''acct-2'' 5 (double (- 5))
          (run \<lparr>MAX_ACCOUNTS = 1, MAX_TRANSACTION_AMOUNT = double 10000\<rparr>
             [Create ''acct-1'' 1 (double 500)] init_service))
     = Inl CapacityExceeded
   \<and> fst (create_account \<lparr>MAX_ACCOUNTS = 1, MAX_TRANSACTION_AMOUNT = double 10000\<rparr>
          ''acct-2'' 5 (double (- 5))
          (run \<lparr>MAX_ACCOUNTS = 1, MAX_TRANSACTION_AMOUNT = double 10000\<rparr>
             [Create ''acct-1'' 1 (double 500)] init_service))
     \<noteq> Inl InvalidAmount"
  by (simp add: service_defs double_simps)

text \<open>
  Claim C4, amended. For every initial balance below 0 the service's own
  \<open>create_account\<close> fails and leaves the state as it was: with CapacityExceeded when the
  ledger is full, and otherwise with InvalidAmount, raised by the constructor of the
  account model.
\<close>

theorem create_rejects_negative_balance:
  assumes "flt b fzero"
  shows "create_account cfg u now b s =
     (Inl (if MAX_ACCOUNTS cfg \<le> int (length (accounts s)) then CapacityExceeded
           else InvalidAmount), s)"
  using assms flt_not_fle [of b fzero] by (simp add: create_account_def Account_def)

theorem create_rejects_negative_balance_witness:
  "flt (double (- 5)) fzero
   \<and> create_account default_settings ''acct-2'' 5 (double (- 5)) funded
       = (Inl InvalidAmount, funded)"
  using create_rejects_negative_balance [of "double (- 5)" default_settings "''acct-2''" 5 funded]
  by (simp add: default_settings_def funded_eq double_simps)

section \<open>The lock table\<close>

lemma map_of_None_keys: "map_of al k = None \<longleftrightarrow> k \<notin> set (map fst al)"
  by (simp add: map_of_eq_None_iff)

lemma keys_locks_getitem: "set (map fst (locks_getitem k ls)) = insert k (set (map fst ls))"
  by (auto simp: locks_getitem_def map_of_None_keys split: option.splits
      dest: map_of_SomeD intro: rev_image_eqI)

lemma lock_keys_acquire [simp]: "lock_keys (acquire k s) = insert k (lock_keys s)"
  by (simp add: lock_keys_def keys_locks_getitem del: set_map)

lemma account_keys_acquire [simp]: "account_keys (acquire k s) = account_keys s"
  by (simp add: account_keys_def)

lemma keys_update: "set (map fst (AList.update k v al)) = insert k (set (map fst al))"
  using AList.dom_update [of k v al] by simp

lemma keys_delete: "set (map fst (AList.delete k al)) = set (map fst al) - {k}"
  by (simp add: AList.delete_keys)

lemma create_account_keys:
  "fst (create_account cfg u now b s) = Inr r \<Longrightarrow>
     account_keys (snd (create_account cfg u now b s)) = insert u (account_keys s)
   \<and> lock_keys (snd (create_account cfg u now b s)) = insert u (lock_keys s)"
  by (auto simp: create_account_def Account_def account_keys_def lock_keys_def acquire_def
        keys_update keys_locks_getitem simp del: set_map split: if_splits)

lemma create_account_failed:
  "fst (create_account cfg u now b s) = Inl e \<Longrightarrow> snd (create_account cfg u now b s) = s"
  by (auto simp: create_account_def Account_def split: if_splits)

lemma delete_account_keys:
  "fst (delete_account k s) = Inr r \<Longrightarrow>
     account_keys (snd (delete_account k s)) = account_keys s - {k}
   \<and> lock_keys (snd (delete_account k s)) = lock_keys s - {k}"
  by (auto simp: delete_account_def account_keys_def lock_keys_def acquire_def Let_def
        keys_delete keys_locks_getitem map_of_None_keys simp del: set_map split: if_splits)

lemma delete_account_failed:
  "fst (delete_account k s) = Inl e \<Longrightarrow> snd (delete_account k s) = s"
  by (auto simp: delete_account_def Let_def split: if_splits)

lemma get_balance_keys:
  "account_keys (snd (get_balance k s)) = account_keys s
   \<and> lock_keys (snd (get_balance k s)) = insert k (lock_keys s)"
  by (simp add: get_balance_def Let_def split: sum.splits)

lemma atomic_transaction_keys:
  "account_keys (snd (atomic_transaction k c ty now s)) = account_keys s
   \<and> lock_keys (snd (atomic_transaction k c ty now s)) = insert k (lock_keys s)"
proof (cases "map_of (accounts s) k")
  case None
  then show ?thesis by (simp add: atomic_transaction_absent)
next
  case (Some a)
  then have "k \<in> set (map fst (accounts s))"
    using map_of_None_keys [of "accounts s" k] by simp
  with Some show ?thesis
    by (auto simp: atomic_transaction_found account_keys_def lock_keys_def keys_update
        keys_locks_getitem simp del: set_map)
qed

lemma step_keys_subset:
  assumes "account_keys s \<subseteq> lock_keys s"
  shows "account_keys (step cfg e s) \<subseteq> lock_keys (step cfg e s)"
proof (cases e)
  case (Create u now b)
  show ?thesis
  proof (cases "fst (create_account cfg u now b s)")
    case (Inl err)
    with assms Create show ?thesis
      by (simp add: step_def lift_result_def create_account_failed)
  next
    case (Inr r)
    with assms Create create_account_keys [OF Inr] show ?thesis
      by (auto simp: step_def lift_result_def)
  qed
next
  case (GetBalance k)
  with assms get_balance_keys [of k s] show ?thesis
    by (auto simp: step_def lift_result_def)
next
  case (Delete k)
  show ?thesis
  proof (cases "fst (delete_account k s)")
    case (Inl err)
    with assms Delete show ?thesis
      by (simp add: step_def lift_result_def delete_account_failed)
  next
    case (Inr r)
    with assms Delete delete_account_keys [OF Inr] show ?thesis
      by (auto simp: step_def lift_result_def)
  qed
next
  case ListAll
  with assms show ?thesis by (simp add: step_def)
next
  case (Withdraw k a now)
  with assms atomic_transaction_keys [of k "fneg a" "''withdrawal''" now s] show ?thesis
    by (auto simp: step_def lift_result_def withdraw_money_def)
next
  case (Deposit k a now)
  with assms atomic_transaction_keys [of k a "''deposit''" now s] show ?thesis
    by (auto simp: step_def lift_result_def deposit_money_def)
qed

lemma run_keys_subset:
  "account_keys s \<subseteq> lock_keys s \<Longrightarrow> account_keys (run cfg es s) \<subseteq> lock_keys (run cfg es s)"
  by (induction es arbitrary: s) (simp_all add: step_keys_subset)

text \<open>
  Claim C5, as stated, fails: the lock table is a \<^verbatim>\<open>defaultdict\<close>, so asking for the
  balance of an identifier that has no account leaves a lock entry for it behind.
\<close>

theorem lock_table_not_account_table:
  "lock_keys (run default_settings [GetBalance ''ghost''] init_service) = {''ghost''}
   \<and> account_keys (run default_settings [GetBalance ''ghost''] init_service) = {}
   \<and> lock_keys (run default_settings [GetBalance ''ghost''] init_service)
       \<noteq> account_keys (run default_settings [GetBalance ''ghost''] init_service)"
  by (simp add: lock_keys_def account_keys_def service_defs)

text \<open>
  Claim C5, amended. In every state reached from the empty ledger the keys of the
  account table are keys of the lock table; a successful creation leaves the new
  identifier in both tables and a successful deletion leaves the deleted identifier in
  neither.
\<close>

theorem locks_cover_accounts:
  "account_keys (run cfg es init_service) \<subseteq> lock_keys (run cfg es init_service)
   \<and> (fst (create_account cfg u now b s) = Inr r \<longrightarrow>
        u \<in> account_keys (snd (create_account cfg u now b s))
      \<and> u \<in> lock_keys (snd (create_account cfg u now b s)))
   \<and> (fst (delete_account k s) = Inr () \<longrightarrow>
        k \<notin> account_keys (snd (delete_account k s))
      \<and> k \<notin> lock_keys (snd (delete_account k s)))"
proof -
  have "account_keys (run cfg es init_service) \<subseteq> lock_keys (run cfg es init_service)"
    by (rule run_keys_subset) (simp add: account_keys_def init_service_def)
  then show ?thesis
    using create_account_keys [of cfg u now b s r] delete_account_keys [of k s "()"]
    by simp
qed

theorem locks_cover_accounts_witness:
  "account_keys funded = {''acct-1''} \<and> lock_keys funded = {''acct-1''}
   \<and> ''acct-2'' \<in> account_keys (snd (create_account default_settings ''acct-2'' 5 (double 20) funded))
   \<and> ''acct-2'' \<in> lock_keys (snd (create_account default_settings ''acct-2'' 5 (double 20) funded))
   \<and> ''acct-1'' \<notin> account_keys (snd (delete_account ''acct-1'' funded))
   \<and> ''acct-1'' \<notin> lock_keys (snd (delete_account ''acct-1'' funded))"
  using locks_cover_accounts [of default_settings
      "[Create ''acct-1'' 1 (double 500), Deposit ''acct-1'' (double 250) 2,
        Withdraw ''acct-1'' (double 100) 3]"
      "''acct-2''" 5 "double 20" funded
      "\<lparr>acr_account_number = ''acct-2'', acr_balance = double 20,
        acr_message = ''Account created successfully''\<rparr>" "''acct-1''"]
  by (simp add: funded_eq account_keys_def lock_keys_def service_defs double_simps)

section \<open>Deletion finality\<close>

lemma step_keeps_absent:
  assumes "map_of (accounts s) k = None" and "\<not> draws k e"
  shows "map_of (accounts (step cfg e s)) k = None"
proof (cases e)
  case (Create u now b)
  with assms show ?thesis
    by (auto simp: step_def lift_result_def create_account_def Account_def AList.update_conv')
next
  case (Delete k')
  with assms show ?thesis
    by (auto simp: step_def lift_result_def delete_account_def Let_def AList.delete_conv')
next
  case (Withdraw k' a now)
  with assms show ?thesis
    by (cases "map_of (accounts s) k'")
       (auto simp: step_def lift_result_def withdraw_money_def atomic_transaction_absent
          atomic_transaction_found AList.update_conv')
next
  case (Deposit k' a now)
  with assms show ?thesis
    by (cases "map_of (accounts s) k'")
       (auto simp: step_def lift_result_def deposit_money_def atomic_transaction_absent
          atomic_transaction_found AList.update_conv')
qed (use assms in \<open>simp_all add: step_def lift_result_def\<close>)

lemma run_keeps_absent:
  "map_of (accounts s) k = None \<Longrightarrow> \<forall>e\<in>set es. \<not> draws k e \<Longrightarrow>
   map_of (accounts (run cfg es s)) k = None"
  by (induction es arbitrary: s) (simp_all add: step_keeps_absent)

lemma delete_account_removes:
  "fst (delete_account k s) = Inr r \<Longrightarrow> map_of (accounts (snd (delete_account k s))) k = None"
  by (auto simp: delete_account_def Let_def AList.delete_conv' split: if_splits)

lemma absent_NotFound:
  assumes "map_of (accounts s) k = None"
  shows "fst (get_balance k s) = Inl NotFound"
    and "fst (deposit_money k a now s) = Inl NotFound"
    and "fst (withdraw_money k a now s) = Inl NotFound"
    and "fst (delete_account k s) = Inl NotFound"
  using assms
  by (simp_all add: get_balance_def get_account_unsafe_def deposit_money_def withdraw_money_def
      atomic_transaction_absent delete_account_def)

text \<open>
  Claim C7. Once \<open>delete_account k\<close> has succeeded, then after any further calls
  (none of them a creation for which \<^verbatim>\<open>uuid4\<close> returns \<open>k\<close> again: identifiers are
  never reused) a balance query, a deposit, a withdrawal and a deletion on \<open>k\<close> all
  fail with NotFound.
\<close>

theorem deletion_finality:
  assumes "fst (delete_account k s) = Inr ()"
      and "\<forall>e\<in>set es. \<not> draws k e"
  shows "fst (get_balance k (run cfg es (snd (delete_account k s)))) = Inl NotFound
       \<and> fst (deposit_money k a now (run cfg es (snd (delete_account k s)))) = Inl NotFound
       \<and> fst (withdraw_money k a now (run cfg es (snd (delete_account k s)))) = Inl NotFound
       \<and> fst (delete_account k (run cfg es (snd (delete_account k s)))) = Inl NotFound"
proof -
  have "map_of (accounts (run cfg es (snd (delete_account k s)))) k = None"
    using assms by (intro run_keeps_absent delete_account_removes)
  then show ?thesis
    by (simp add: absent_NotFound)
qed

theorem deletion_finality_witness:
  "fst (delete_account ''acct-1'' funded) = Inr ()
   \<and> map (draws ''acct-1'')
         [Create ''acct-2'' 5 (double 20), Deposit ''acct-1'' (double 5) 6, GetBalance ''acct-1'',
           Delete ''acct-1'']
       = [False, False, False, False]
   \<and> fst (get_balance ''acct-1'' (run default_settings
          [Create ''acct-2'' 5 (double 20), Deposit ''acct-1'' (double 5) 6, GetBalance ''acct-1'',
           Delete ''acct-1'']
          (snd (delete_account ''acct-1'' funded)))) = Inl NotFound
   \<and> fst (deposit_money ''acct-1'' (double 10) 7 (run default_settings
          [Create ''acct-2'' 5 (double 20), Deposit ''acct-1'' (double 5) 6, GetBalance ''acct-1'',
           Delete ''acct-1'']
          (snd (delete_account ''acct-1'' funded)))) = Inl NotFound
   \<and> fst (withdraw_money ''acct-1'' (double 10) 7 (run default_settings
          [Create ''acct-2'' 5 (double 20), Deposit ''acct-1'' (double 5) 6, GetBalance ''acct-1'',
           Delete ''acct-1'']
          (snd (delete_account ''acct-1'' funded)))) = Inl NotFound
   \<and> fst (delete_account ''acct-1'' (run default_settings
          [Create ''acct-2'' 5 (double 20), Deposit ''acct-1'' (double 5) 6, GetBalance ''acct-1'',
           Delete ''acct-1'']
          (snd (delete_account ''acct-1'' funded)))) = Inl NotFound"
  using deletion_finality [of "''acct-1''" funded
      "[Create ''acct-2'' 5 (double 20), Deposit ''acct-1'' (double 5) 6, GetBalance ''acct-1'',
           Delete ''acct-1'']"
      default_settings "double 10" 7]
  by (simp add: funded_eq service_defs double_simps)

section \<open>Capacity\<close>

lemma create_account_capacity_iff:
  "fst (create_account cfg u now b s) = Inl CapacityExceeded
     \<longleftrightarrow> MAX_ACCOUNTS cfg \<le> int (length (accounts s))"
  by (simp add: create_account_def Account_def)

lemma create_account_full:
  "MAX_ACCOUNTS cfg \<le> int (length (accounts s)) \<Longrightarrow>
   create_account cfg u now b s = (Inl CapacityExceeded, s)"
  by (simp add: create_account_def)

lemma create_account_ok:
  assumes "int (length (accounts s)) < MAX_ACCOUNTS cfg" and "fle fzero b"
  shows "create_account cfg u now b s =
     (Inr \<lparr>acr_account_number = u, acr_balance = b,
           acr_message = ''Account created successfully''\<rparr>,
      acquire u (s\<lparr>accounts := AList.update u
         \<lparr>account_number = u, balance = b, created_at = now, last_updated = now\<rparr> (accounts s)\<rparr>))"
  using assms by (simp add: create_account_def Account_def)

lemma length_delete_present:
  "distinct (map fst al) \<Longrightarrow> k \<in> set (map fst al) \<Longrightarrow>
   Suc (length (AList.delete k al)) = length al"
proof (induction al)
  case Nil
  then show ?case by simp
next
  case (Cons p al)
  show ?case
  proof (cases "fst p = k")
    case True
    with Cons.prems have "k \<notin> fst ` set al" by auto
    with True show ?thesis by simp
  next
    case False
    with Cons show ?thesis by auto
  qed
qed

lemma delete_account_length:
  assumes "distinct (map fst (accounts s))" and "fst (delete_account k s) = Inr r"
  shows "Suc (length (accounts (snd (delete_account k s)))) = length (accounts s)"
proof -
  from assms(2) have "map_of (accounts s) k \<noteq> None"
    by (auto simp: delete_account_def split: if_splits)
  then have "k \<in> set (map fst (accounts s))"
    using map_of_None_keys [of "accounts s" k] by simp
  with assms(1) have "Suc (length (AList.delete k (accounts s))) = length (accounts s)"
    by (rule length_delete_present)
  with \<open>map_of (accounts s) k \<noteq> None\<close> show ?thesis
    by (simp add: delete_account_def Let_def)
qed

lemma run_creations:
  assumes "distinct (map fst (accounts s) @ map fst xs)"
      and "\<forall>x\<in>set xs. fle fzero (snd (snd x))"
      and "int (length (accounts s) + length xs) \<le> MAX_ACCOUNTS cfg"
  shows "map fst (accounts (run cfg (creations xs) s)) = map fst (accounts s) @ map fst xs"
  using assms
proof (induction xs arbitrary: s)
  case Nil
  then show ?case by (simp add: creations_def)
next
  case (Cons x xs)
  obtain u now b where x: "x = (u, now, b)" by (cases x)
  let ?s = "step cfg (Create u now b) s"
  from Cons.prems x have lt: "int (length (accounts s)) < MAX_ACCOUNTS cfg" and b: "fle fzero b"
    by auto
  from Cons.prems x have fresh: "u \<notin> set (map fst (accounts s))" by auto
  have acc: "accounts ?s = AList.update u
      \<lparr>account_number = u, balance = b, created_at = now, last_updated = now\<rparr> (accounts s)"
    by (simp add: step_def lift_result_def create_account_ok [OF lt b])
  with fresh have keys: "map fst (accounts ?s) = map fst (accounts s) @ [u]"
    by (simp add: AList.update_keys)
  have "map fst (accounts (run cfg (creations xs) ?s)) = map fst (accounts ?s) @ map fst xs"
  proof (rule Cons.IH)
    show "distinct (map fst (accounts ?s) @ map fst xs)"
      using Cons.prems(1) x keys by auto
    show "\<forall>x\<in>set xs. fle fzero (snd (snd x))" using Cons.prems(2) by simp
    have "length (accounts ?s) = Suc (length (accounts s))"
      using keys by (metis length_append_singleton length_map)
    then show "int (length (accounts ?s) + length xs) \<le> MAX_ACCOUNTS cfg"
      using Cons.prems(3) by simp
  qed
  with keys x show ?case by (simp add: creations_def)
qed

text \<open>
  Claim C6. A creation fails with CapacityExceeded exactly when the account table holds at
  least \<open>MAX_ACCOUNTS\<close> entries. After \<open>MAX_ACCOUNTS\<close> creations from the empty
  ledger (with distinct identifiers and balances that are not negative) exactly these
  accounts are live, the next creation fails with CapacityExceeded and leaves the state
  as it is, and after one successful deletion a creation with a balance that is not
  negative succeeds and stores the new account.
\<close>

theorem capacity_enforcement:
  "(fst (create_account cfg u now b s) = Inl CapacityExceeded
      \<longleftrightarrow> MAX_ACCOUNTS cfg \<le> int (length (accounts s)))
   \<and> (distinct (map fst xs) \<and> (\<forall>x\<in>set xs. fle fzero (snd (snd x)))
        \<and> int (length xs) = MAX_ACCOUNTS cfg \<longrightarrow>
      map fst (accounts (run cfg (creations xs) init_service)) = map fst xs
      \<and> create_account cfg u now b (run cfg (creations xs) init_service)
          = (Inl CapacityExceeded, run cfg (creations xs) init_service)
      \<and> (fst (delete_account k (run cfg (creations xs) init_service)) = Inr () \<and> fle fzero b \<longrightarrow>
           fst (create_account cfg u now b
                  (snd (delete_account k (run cfg (creations xs) init_service))))
             = Inr \<lparr>acr_account_number = u, acr_balance = b,
                    acr_message = ''Account created successfully''\<rparr>
         \<and> map_of (accounts (snd (create_account cfg u now b
                  (snd (delete_account k (run cfg (creations xs) init_service)))))) u
             = Some \<lparr>account_number = u, balance = b, created_at = now, last_updated = now\<rparr>))"
proof (intro conjI impI)
  show "fst (create_account cfg u now b s) = Inl CapacityExceeded
      \<longleftrightarrow> MAX_ACCOUNTS cfg \<le> int (length (accounts s))"
    by (rule create_account_capacity_iff)
next
  let ?full = "run cfg (creations xs) init_service"
  assume xs: "distinct (map fst xs) \<and> (\<forall>x\<in>set xs. fle fzero (snd (snd x)))
        \<and> int (length xs) = MAX_ACCOUNTS cfg"
  then have "map fst (accounts ?full) = map fst (accounts init_service) @ map fst xs"
    by (intro run_creations) (simp_all add: init_service_def)
  then show keys: "map fst (accounts ?full) = map fst xs"
    by (simp add: init_service_def)
  then have len: "length (accounts ?full) = length xs"
    by (metis length_map)
  with xs show "create_account cfg u now b ?full = (Inl CapacityExceeded, ?full)"
    by (simp add: create_account_full)
  assume del: "fst (delete_account k ?full) = Inr () \<and> fle fzero b"
  let ?s = "snd (delete_account k ?full)"
  from keys xs have "distinct (map fst (accounts ?full))" by simp
  then have "Suc (length (accounts ?s)) = length (accounts ?full)"
    using del by (intro delete_account_length) simp_all
  with len xs have lt: "int (length (accounts ?s)) < MAX_ACCOUNTS cfg" by linarith
  from del have b: "fle fzero b" by simp
  show "fst (create_account cfg u now b ?s)
      = Inr \<lparr>acr_account_number = u, acr_balance = b,
             acr_message = ''Account created successfully''\<rparr>"
    by (simp add: create_account_ok [OF lt b])
  show "map_of (accounts (snd (create_account cfg u now b ?s))) u
      = Some \<lparr>account_number = u, balance = b, created_at = now, last_updated = now\<rparr>"
    by (simp add: create_account_ok [OF lt b] AList.update_conv')
qed

theorem capacity_enforcement_witness:
  "distinct (map fst [(''a'', 1 :: datetime, double 10), (''b'', 2, double 20)])
   \<and> int (length [(''a'', 1 :: datetime, double 10), (''b'', 2, double 20)])
       = MAX_ACCOUNTS \<lparr>MAX_ACCOUNTS = 2, MAX_TRANSACTION_AMOUNT = double 10000\<rparr>
   \<and> fst (create_account \<lparr>MAX_ACCOUNTS = 2, MAX_TRANSACTION_AMOUNT = double 10000\<rparr> ''c'' 3 (double 30)
          (run \<lparr>MAX_ACCOUNTS = 2, MAX_TRANSACTION_AMOUNT = double 10000\<rparr>
             (creations [(''a'', 1, double 10), (''b'', 2, double 20)]) init_service))
     = Inl CapacityExceeded
   \<and> map fst (accounts (run \<lparr>MAX_ACCOUNTS = 2, MAX_TRANSACTION_AMOUNT = double 10000\<rparr>
             (creations [(''a'', 1, double 10), (''b'', 2, double 20)]) init_service)) = [''a'', ''b'']
   \<and> fst (delete_account ''a'' (run \<lparr>MAX_ACCOUNTS = 2, MAX_TRANSACTION_AMOUNT = double 10000\<rparr>
             (creations [(''a'', 1, double 10), (''b'', 2, double 20)]) init_service)) = Inr ()
   \<and> fst (create_account \<lparr>MAX_ACCOUNTS = 2, MAX_TRANSACTION_AMOUNT = double 10000\<rparr> ''c'' 3 (double 30)
          (snd (delete_account ''a'' (run \<lparr>MAX_ACCOUNTS = 2, MAX_TRANSACTION_AMOUNT = double 10000\<rparr>
             (creations [(''a'', 1, double 10), (''b'', 2, double 20)]) init_service))))
     = Inr \<lparr>acr_account_number = ''c'', acr_balance = double 30,
            acr_message = ''Account created successfully''\<rparr>"
  using capacity_enforcement [of "\<lparr>MAX_ACCOUNTS = 2, MAX_TRANSACTION_AMOUNT = double 10000\<rparr>"
      "''c''" 3 "double 30"
      "run \<lparr>MAX_ACCOUNTS = 2, MAX_TRANSACTION_AMOUNT = double 10000\<rparr>
             (creations [(''a'', 1, double 10), (''b'', 2, double 20)]) init_service"
      "[(''a'', 1, double 10), (''b'', 2, double 20)]" "''a''"]
  by (simp add: creations_def service_defs double_simps)

section \<open>Conservation\<close>

lemma get_balance_found:
  "map_of (accounts s) k = Some a \<Longrightarrow>
   fst (get_balance k s) = Inr \<lparr>br_account_number = account_number a, br_balance = balance a\<rparr>"
  by (simp add: get_balance_def get_account_unsafe_def)

lemma step_txn_success:
  assumes "map_of (accounts s) k = Some a" and "txn_on k e"
      and "fst (exec cfg e s) = Inr r"
  shows "\<exists>t. map_of (accounts (step cfg e s)) k =
      Some (a\<lparr>balance := fadd (balance a) (balance_change e), last_updated := t\<rparr>)"
proof (cases e)
  case (Withdraw k' amt now)
  with assms show ?thesis
    by (auto simp: step_def lift_result_def withdraw_money_def
        atomic_transaction_found AList.update_conv' split: if_splits)
next
  case (Deposit k' amt now)
  with assms show ?thesis
    by (auto simp: step_def lift_result_def deposit_money_def
        atomic_transaction_found AList.update_conv' split: if_splits)
qed (use assms in simp_all)

lemma run_txns_balance:
  assumes "map_of (accounts s) k = Some a" and "list_all (txn_on k) es"
      and "all_succeed cfg es s"
  shows "\<exists>a'. map_of (accounts (run cfg es s)) k = Some a'
      \<and> balance a' = apply_amounts (balance a) es
      \<and> account_number a' = account_number a \<and> created_at a' = created_at a"
  using assms
proof (induction es arbitrary: s a)
  case Nil
  then show ?case by simp
next
  case (Cons e es)
  from Cons.prems(3) obtain r where r: "fst (exec cfg e s) = Inr r"
    and rest: "all_succeed cfg es (step cfg e s)"
    by (auto split: sum.splits)
  from Cons.prems(2) have e: "txn_on k e" and es: "list_all (txn_on k) es" by simp_all
  from step_txn_success [OF Cons.prems(1) e r] obtain t where
    st: "map_of (accounts (step cfg e s)) k =
      Some (a\<lparr>balance := fadd (balance a) (balance_change e), last_updated := t\<rparr>)"
    by blast
  from Cons.IH [OF st es rest] obtain a' where
    "map_of (accounts (run cfg es (step cfg e s))) k = Some a'"
    "balance a' = apply_amounts (fadd (balance a) (balance_change e)) es"
    "account_number a' = account_number a" "created_at a' = created_at a"
    by auto
  then show ?case by simp
qed

lemma create_account_stores:
  "fst (create_account cfg k t0 b0 s0) = Inr r \<Longrightarrow>
   map_of (accounts (snd (create_account cfg k t0 b0 s0))) k =
     Some \<lparr>account_number = k, balance = b0, created_at = t0, last_updated = t0\<rparr>"
  by (auto simp: create_account_def Account_def AList.update_conv' split: if_splits)

lemma balance_is_float_sum:
  assumes "fst (create_account cfg k t0 b0 s0) = Inr r"
      and "list_all (txn_on k) es"
      and "all_succeed cfg es (snd (create_account cfg k t0 b0 s0))"
  shows "fst (get_balance k (run cfg es (snd (create_account cfg k t0 b0 s0)))) =
      Inr \<lparr>br_account_number = k, br_balance = apply_amounts b0 es\<rparr>"
proof -
  let ?s = "snd (create_account cfg k t0 b0 s0)"
  from run_txns_balance [OF create_account_stores [OF assms(1)] assms(2,3)]
  obtain a' where "map_of (accounts (run cfg es ?s)) k = Some a'"
    "balance a' = apply_amounts b0 es" "account_number a' = k"
    by auto
  then show ?thesis by (simp add: get_balance_found)
qed

lemma valof_balance_change:
  "valof (balance_change e) = deposits_sum [e] - withdrawals_sum [e]"
  by (cases e) (simp_all add: fzero_def sval_def)

lemma deposits_sum_Cons: "deposits_sum (e # es) = deposits_sum [e] + deposits_sum es"
  by (cases e) simp_all

lemma withdrawals_sum_Cons: "withdrawals_sum (e # es) = withdrawals_sum [e] + withdrawals_sum es"
  by (cases e) simp_all

lemma exact_without_rounding:
  "no_rounding b es \<Longrightarrow>
   valof (apply_amounts b es) = valof b + deposits_sum es - withdrawals_sum es"
proof (induction es arbitrary: b)
  case Nil
  then show ?case by simp
next
  case (Cons e es)
  then have "valof (apply_amounts (fadd b (balance_change e)) es)
      = valof (fadd b (balance_change e)) + deposits_sum es - withdrawals_sum es"
    by simp
  moreover from Cons.prems have "valof (fadd b (balance_change e)) = valof b + valof (balance_change e)"
    by simp
  ultimately show ?case
    using deposits_sum_Cons [of e es] withdrawals_sum_Cons [of e es] valof_balance_change [of e]
    by simp
qed

text \<open>
  The additions behind the counterexample: 8192 is \<^verbatim>\<open>2**54\<close> times \<^verbatim>\<open>2**-41\<close>, one
  unit in its last place is \<^verbatim>\<open>2**-39\<close>, so adding \<^verbatim>\<open>2**-41\<close> rounds back to 8192.
\<close>

lemma double_8192: "double 8192 = dyadic 18014398509481984 (- 41)"
proof -
  have "dyadic (8192 * 2 ^ 41) (- 41) = dyadic 8192 (- 41 + int 41)"
    by (rule dyadic_shift) simp
  then show ?thesis by (simp add: double_def)
qed

lemma double_10000: "double 10000 = dyadic 21990232555520000 (- 41)"
proof -
  have "dyadic (10000 * 2 ^ 41) (- 41) = dyadic 10000 (- 41 + int 41)"
    by (rule dyadic_shift) simp
  then show ?thesis by (simp add: double_def)
qed

lemma fadd_dyadic_pos:
  assumes "0 < a + b" and "round53 (nat (a + b)) = nat c" and "0 \<le> c"
      and "nat c < 2 ^ p" and "p + nat (e + 1074) \<le> 2098"
  shows "fadd (dyadic a e) (dyadic b e) = dyadic c e"
proof -
  have "fadd (dyadic a e) (dyadic b e)
      = overflow False (nat c * 2 ^ nat (e + 1074))"
    using assms(1,2) by (simp add: fadd_dyadic)
  also have "\<dots> = Finite False (nat c * 2 ^ nat (e + 1074))"
    using assms(4,5) by (rule overflow_small)
  also have "\<dots> = dyadic c e"
    using assms(3) by (simp add: dyadic_def)
  finally show ?thesis .
qed

lemma round53_absorbs: "round53 18014398509481985 = 18014398509481984"
proof -
  have "floorlog 2 18014398509481985 = Suc 54"
    by (rule floorlog2_eq) simp_all
  then show ?thesis by (simp add: round53_def)
qed

lemma round53_keeps: "round53 18014398509481988 = 18014398509481988"
proof -
  have "floorlog 2 18014398509481988 = Suc 54"
    by (rule floorlog2_eq) simp_all
  then show ?thesis by (simp add: round53_def)
qed

lemma tiny_absorbed: "fadd (double 8192) (dyadic 1 (- 41)) = double 8192"
proof -
  have "fadd (dyadic 18014398509481984 (- 41)) (dyadic 1 (- 41))
      = dyadic 18014398509481984 (- 41)"
    by (rule fadd_dyadic_pos [where p = 55]) (simp_all add: round53_absorbs)
  then show ?thesis by (simp only: double_8192)
qed

lemma tiny_in_bounds:
  "TransactionRequest default_settings (dyadic 1 (- 41)) = Inr (dyadic 1 (- 41))"
  by (simp add: TransactionRequest_def default_settings_def double_10000 fle_dyadic flt_dyadic
      flip: dyadic_zero [of "- 41"])

lemma tiny_not_negative: "flt (dyadic 1 (- 41)) fzero = False"
  by (simp add: flt_dyadic flip: dyadic_zero [of "- 41"])

lemma tiny_sum:
  "fadd (fadd (fadd (dyadic 1 (- 41)) (dyadic 1 (- 41))) (dyadic 1 (- 41))) (dyadic 1 (- 41))
     = dyadic 4 (- 41)"
  by (simp add: fadd_dyadic_exact)

lemma tiny_sum_not_absorbed:
  "fadd (double 8192) (dyadic 4 (- 41)) = dyadic 18014398509481988 (- 41)"
proof -
  have "fadd (dyadic 18014398509481984 (- 41)) (dyadic 4 (- 41))
      = dyadic 18014398509481988 (- 41)"
    by (rule fadd_dyadic_pos [where p = 55]) (simp_all add: round53_keeps)
  then show ?thesis by (simp only: double_8192)
qed

text \<open>
  Claim C8, as stated, fails: float addition rounds. An account created with 8192
  receives four deposits of \<^verbatim>\<open>2**-41\<close>, each within the bounds of the request model
  and each successful; every one is rounded away, so the balance query returns 8192,
  while the initial balance plus the sum of the deposits is \<^verbatim>\<open>8192 + 2**-39\<close>, in exact
  arithmetic and in float arithmetic alike.
\<close>

theorem rounding_breaks_conservation:
  "TransactionRequest default_settings (dyadic 1 (- 41)) = Inr (dyadic 1 (- 41))
   \<and> fst (create_account default_settings ''acct-1'' 1 (double 8192) init_service)
       = Inr \<lparr>acr_account_number = ''acct-1'', acr_balance = double 8192,
              acr_message = ''Account created successfully''\<rparr>
   \<and> list_all (txn_on ''acct-1'') tiny_deposits
   \<and> all_succeed default_settings tiny_deposits
       (snd (create_account default_settings ''acct-1'' 1 (double 8192) init_service))
   \<and> fst (get_balance ''acct-1'' (run default_settings tiny_deposits
         (snd (create_account default_settings ''acct-1'' 1 (double 8192) init_service))))
       = Inr \<lparr>br_account_number = ''acct-1'', br_balance = double 8192\<rparr>
   \<and> valof (double 8192) = 8192
   \<and> valof (double 8192) + deposits_sum tiny_deposits - withdrawals_sum tiny_deposits
       = 8192 + 1 / 2 ^ 39
   \<and> fadd (double 8192)
        (fadd (fadd (fadd (dyadic 1 (- 41)) (dyadic 1 (- 41))) (dyadic 1 (- 41)))
           (dyadic 1 (- 41)))
       \<noteq> double 8192"
proof -
  have "valof (dyadic 1 (- int 41)) = real_of_int 1 / 2 ^ 41"
    by (rule valof_dyadic) simp
  then have v: "valof (dyadic 1 (- 41)) = 1 / 2 ^ 41" by simp
  have run: "fst (create_account default_settings ''acct-1'' 1 (double 8192) init_service)
       = Inr \<lparr>acr_account_number = ''acct-1'', acr_balance = double 8192,
              acr_message = ''Account created successfully''\<rparr>
   \<and> list_all (txn_on ''acct-1'') tiny_deposits
   \<and> all_succeed default_settings tiny_deposits
       (snd (create_account default_settings ''acct-1'' 1 (double 8192) init_service))
   \<and> fst (get_balance ''acct-1'' (run default_settings tiny_deposits
         (snd (create_account default_settings ''acct-1'' 1 (double 8192) init_service))))
       = Inr \<lparr>br_account_number = ''acct-1'', br_balance = double 8192\<rparr>"
    by (simp add: tiny_deposits_def service_defs double_simps tiny_absorbed
        tiny_not_negative fabs_dyadic)
  have sums: "valof (double 8192) = 8192
   \<and> valof (double 8192) + deposits_sum tiny_deposits - withdrawals_sum tiny_deposits
       = 8192 + 1 / 2 ^ 39"
    by (simp add: tiny_deposits_def valof_double v)
  have "dyadic 18014398509481988 (- 41) \<noteq> double 8192"
    by (simp add: double_8192 dyadic_eq_iff)
  moreover have "fadd (double 8192)
        (fadd (fadd (fadd (dyadic 1 (- 41)) (dyadic 1 (- 41))) (dyadic 1 (- 41)))
           (dyadic 1 (- 41)))
       = dyadic 18014398509481988 (- 41)"
    by (simp only: tiny_sum tiny_sum_not_absorbed)
  ultimately have ne: "fadd (double 8192)
        (fadd (fadd (fadd (dyadic 1 (- 41)) (dyadic 1 (- 41))) (dyadic 1 (- 41)))
           (dyadic 1 (- 41)))
       \<noteq> double 8192"
    by simp
  from tiny_in_bounds run sums ne show ?thesis by blast
qed

text \<open>
  Claim C8, amended. If an account is created with balance \<open>b0\<close> and then receives
  deposits and withdrawals that all succeed, a balance query returns the float obtained
  from \<open>b0\<close> by adding the deposited and subtracting the withdrawn amounts one after the
  other, in the order of the calls, each step rounded as float addition rounds. When no
  step rounds, that value is \<open>b0\<close> plus the deposited minus the withdrawn amounts. The
  scenario of the specification: create with 500, deposit 250 gives 750, withdraw 100
  gives 650, withdraw 1000 fails with InsufficientFunds and the balance is still 650.
\<close>

theorem conservation:
  "(fst (create_account cfg k t0 b0 s0) = Inr r
      \<and> list_all (txn_on k) es
      \<and> all_succeed cfg es (snd (create_account cfg k t0 b0 s0)) \<longrightarrow>
    fst (get_balance k (run cfg es (snd (create_account cfg k t0 b0 s0)))) =
      Inr \<lparr>br_account_number = k, br_balance = apply_amounts b0 es\<rparr>)
   \<and> (no_rounding b0 es \<longrightarrow>
        valof (apply_amounts b0 es) = valof b0 + deposits_sum es - withdrawals_sum es)
   \<and> fst (exec default_settings (Create ''acct-1'' 1 (double 500)) init_service) =
      Inr (Created \<lparr>acr_account_number = ''acct-1'', acr_balance = double 500,
                     acr_message = ''Account created successfully''\<rparr>)
   \<and> fst (exec default_settings (Deposit ''acct-1'' (double 250) 2)
        (run default_settings [Create ''acct-1'' 1 (double 500)] init_service)) =
      Inr (Transaction \<lparr>tr_account_number = ''acct-1'', new_balance = double 750,
             transaction_amount = double 250, transaction_type = ''deposit'', timestamp = 2\<rparr>)
   \<and> fst (exec default_settings (Withdraw ''acct-1'' (double 100) 3)
        (run default_settings
           [Create ''acct-1'' 1 (double 500), Deposit ''acct-1'' (double 250) 2]
           init_service)) =
      Inr (Transaction \<lparr>tr_account_number = ''acct-1'', new_balance = double 650,
             transaction_amount = double 100, transaction_type = ''withdrawal'',
             timestamp = 3\<rparr>)
   \<and> fst (exec default_settings (Withdraw ''acct-1'' (double 1000) 4) funded)
       = Inl InsufficientFunds
   \<and> fst (exec default_settings (GetBalance ''acct-1'')
        (step default_settings (Withdraw ''acct-1'' (double 1000) 4) funded)) =
      Inr (Balance \<lparr>br_account_number = ''acct-1'', br_balance = double 650\<rparr>)"
proof -
  have general: "fst (create_account cfg k t0 b0 s0) = Inr r
      \<and> list_all (txn_on k) es
      \<and> all_succeed cfg es (snd (create_account cfg k t0 b0 s0)) \<longrightarrow>
    fst (get_balance k (run cfg es (snd (create_account cfg k t0 b0 s0)))) =
      Inr \<lparr>br_account_number = k, br_balance = apply_amounts b0 es\<rparr>"
    using balance_is_float_sum [of cfg k t0 b0 s0 r es] by blast
  have exact: "no_rounding b0 es \<longrightarrow>
        valof (apply_amounts b0 es) = valof b0 + deposits_sum es - withdrawals_sum es"
    using exact_without_rounding [of b0 es] by blast
  have scenario: "fst (exec default_settings (Create ''acct-1'' 1 (double 500)) init_service) =
      Inr (Created \<lparr>acr_account_number = ''acct-1'', acr_balance = double 500,
                     acr_message = ''Account created successfully''\<rparr>)
   \<and> fst (exec default_settings (Deposit ''acct-1'' (double 250) 2)
        (run default_settings [Create ''acct-1'' 1 (double 500)] init_service)) =
      Inr (Transaction \<lparr>tr_account_number = ''acct-1'', new_balance = double 750,
             transaction_amount = double 250, transaction_type = ''deposit'', timestamp = 2\<rparr>)
   \<and> fst (exec default_settings (Withdraw ''acct-1'' (double 100) 3)
        (run default_settings
           [Create ''acct-1'' 1 (double 500), Deposit ''acct-1'' (double 250) 2]
           init_service)) =
      Inr (Transaction \<lparr>tr_account_number = ''acct-1'', new_balance = double 650,
             transaction_amount = double 100, transaction_type = ''withdrawal'',
             timestamp = 3\<rparr>)
   \<and> fst (exec default_settings (Withdraw ''acct-1'' (double 1000) 4) funded)
       = Inl InsufficientFunds
   \<and> fst (exec default_settings (GetBalance ''acct-1'')
        (step default_settings (Withdraw ''acct-1'' (double 1000) 4) funded)) =
      Inr (Balance \<lparr>br_account_number = ''acct-1'', br_balance = double 650\<rparr>)"
    by (simp add: funded_eq service_defs double_simps)
  from exact scenario have "(no_rounding b0 es \<longrightarrow>
        valof (apply_amounts b0 es) = valof b0 + deposits_sum es - withdrawals_sum es)
   \<and> fst (exec default_settings (Create ''acct-1'' 1 (double 500)) init_service) =
      Inr (Created \<lparr>acr_account_number = ''acct-1'', acr_balance = double 500,
                     acr_message = ''Account created successfully''\<rparr>)
   \<and> fst (exec default_settings (Deposit ''acct-1'' (double 250) 2)
        (run default_settings [Create ''acct-1'' 1 (double 500)] init_service)) =
      Inr (Transaction \<lparr>tr_account_number = ''acct-1'', new_balance = double 750,
             transaction_amount = double 250, transaction_type = ''deposit'', timestamp = 2\<rparr>)
   \<and> fst (exec default_settings (Withdraw ''acct-1'' (double 100) 3)
        (run default_settings
           [Create ''acct-1'' 1 (double 500), Deposit ''acct-1'' (double 250) 2]
           init_service)) =
      Inr (Transaction \<lparr>tr_account_number = ''acct-1'', new_balance = double 650,
             transaction_amount = double 100, transaction_type = ''withdrawal'',
             timestamp = 3\<rparr>)
   \<and> fst (exec default_settings (Withdraw ''acct-1'' (double 1000) 4) funded)
       = Inl InsufficientFunds
   \<and> fst (exec default_settings (GetBalance ''acct-1'')
        (step default_settings (Withdraw ''acct-1'' (double 1000) 4) funded)) =
      Inr (Balance \<lparr>br_account_number = ''acct-1'', br_balance = double 650\<rparr>)"
    by (rule conjI)
  with general show ?thesis by (rule conjI)
qed

theorem conservation_witness:
  "fst (create_account default_settings ''acct-1'' 1 (double 500) init_service) =
      Inr \<lparr>acr_account_number = ''acct-1'', acr_balance = double 500,
           acr_message = ''Account created successfully''\<rparr>
   \<and> map (txn_on ''acct-1'')
        [Deposit ''acct-1'' (double 250) 2, Withdraw ''acct-1'' (double 100) 3] = [True, True]
   \<and> all_succeed default_settings
        [Deposit ''acct-1'' (double 250) 2, Withdraw ''acct-1'' (double 100) 3]
        (snd (create_account default_settings ''acct-1'' 1 (double 500) init_service))
   \<and> no_rounding (double 500)
        [Deposit ''acct-1'' (double 250) 2, Withdraw ''acct-1'' (double 100) 3]
   \<and> apply_amounts (double 500)
        [Deposit ''acct-1'' (double 250) 2, Withdraw ''acct-1'' (double 100) 3] = double 650
   \<and> deposits_sum [Deposit ''acct-1'' (double 250) 2, Withdraw ''acct-1'' (double 100) 3] = 250
   \<and> withdrawals_sum [Deposit ''acct-1'' (double 250) 2, Withdraw ''acct-1'' (double 100) 3]
       = 100
   \<and> valof (double 650) = 500 + 250 - 100
   \<and> fst (get_balance ''acct-1'' (run default_settings
        [Deposit ''acct-1'' (double 250) 2, Withdraw ''acct-1'' (double 100) 3]
        (snd (create_account default_settings ''acct-1'' 1 (double 500) init_service)))) =
      Inr \<lparr>br_account_number = ''acct-1'', br_balance = double 650\<rparr>"
  using conservation [of default_settings "''acct-1''" 1 "double 500" init_service
      "\<lparr>acr_account_number = ''acct-1'', acr_balance = double 500,
           acr_message = ''Account created successfully''\<rparr>"
      "[Deposit ''acct-1'' (double 250) 2, Withdraw ''acct-1'' (double 100) 3]"]
  by (simp add: service_defs double_simps)

section \<open>Isolation of accounts\<close>








end
